theory Spec2Isabelle
  imports Main "HOL-Library.AList"
begin

section \<open>Values and strings\<close>

text \<open>
  The primitive JavaScript values that occur as row attributes, index values and filter
  literals. Numbers are the integers and \<open>NaN\<close>; composite values (objects, arrays) as
  attribute values are not modelled. Strings are the UTF-8 bytes of the source's strings.
\<close>

datatype jsval = Undefined | Null | Bool bool | Num int | NaN | Str string

text \<open>\<open>a === b\<close> on primitives: equal values of the same type, and \<open>NaN\<close> equals nothing.\<close>

definition strictEq :: "jsval \<Rightarrow> jsval \<Rightarrow> bool" where
  "strictEq a b = (a = b \<and> a \<noteq> NaN)"

text \<open>Truthiness, as the conditions \<open>x ? .. : ..\<close>, \<open>!x\<close> and \<open>Boolean(x)\<close> read it.\<close>

fun truthy :: "jsval \<Rightarrow> bool" where
  "truthy Undefined = False"
| "truthy Null = False"
| "truthy (Bool b) = b"
| "truthy (Num n) = (n \<noteq> 0)"
| "truthy NaN = False"
| "truthy (Str s) = (s \<noteq> [])"

definition digit :: "nat \<Rightarrow> char" where
  "digit n = ''0123456789ABCDEF'' ! n"

fun natStr :: "nat \<Rightarrow> string" where
  "natStr n = (if n < 10 then [digit n] else natStr (n div 10) @ [digit (n mod 10)])"

text \<open>The string form of a value, as template literals and \<open>encodeURIComponent\<close> coerce it.\<close>

fun toStr :: "jsval \<Rightarrow> string" where
  "toStr Undefined = ''undefined''"
| "toStr Null = ''null''"
| "toStr (Bool b) = (if b then ''true'' else ''false'')"
| "toStr (Num n) = (if n < 0 then CHR ''-'' # natStr (nat (- n)) else natStr (nat n))"
| "toStr NaN = ''NaN''"
| "toStr (Str s) = s"

subsection \<open>encodeURIComponent and decodeURIComponent\<close>

text \<open>
  \<open>encodeURIComponent\<close> keeps the unreserved characters \<open>A-Z a-z 0-9 - _ . ! ~ * ' ( )\<close>
  and writes every other byte of the UTF-8 form as \<open>%XX\<close> with upper-case hex digits.
\<close>

definition unreserved :: "char \<Rightarrow> bool" where
  "unreserved c =
     (c \<in> set (''ABCDEFGHIJKLMNOPQRSTUVWXYZabcdefghijklmnopqrstuvwxyz0123456789-_.!~*()''
              @ [CHR 0x27]))"

definition encByte :: "char \<Rightarrow> string" where
  "encByte c =
     (if unreserved c then [c]
      else [CHR ''%'', digit ((of_char c :: nat) div 16), digit ((of_char c :: nat) mod 16)])"

definition encodeURIComponent :: "string \<Rightarrow> string" where
  "encodeURIComponent s = concat (map encByte s)"

definition hexVal :: "char \<Rightarrow> nat option" where
  "hexVal c =
     (let n = (of_char c :: nat) in
      if 48 \<le> n \<and> n \<le> 57 then Some (n - 48)
      else if 65 \<le> n \<and> n \<le> 70 then Some (n - 55)
      else if 97 \<le> n \<and> n \<le> 102 then Some (n - 87)
      else None)"

text \<open>The byte of an escape \<open>%XX\<close>, given the two characters after the percent sign.\<close>

definition hexByte :: "char \<Rightarrow> char \<Rightarrow> nat option" where
  "hexByte a b =
     (case hexVal a of None \<Rightarrow> None
      | Some x \<Rightarrow> (case hexVal b of None \<Rightarrow> None | Some y \<Rightarrow> Some (16 * x + y)))"

text \<open>The continuation bytes of a multi-byte sequence: each one an escape \<open>%XX\<close> of the
  form \<open>10xxxxxx\<close>.\<close>

fun contOctets :: "string \<Rightarrow> nat list option" where
  "contOctets [] = Some []"
| "contOctets (p # a # b # rest) =
     (if p \<noteq> CHR ''%'' then None
      else (case hexByte a b of None \<Rightarrow> None
            | Some y \<Rightarrow>
                if 128 \<le> y \<and> y < 192
                then (case contOctets rest of None \<Rightarrow> None | Some ys \<Rightarrow> Some (y # ys))
                else None))"
| "contOctets _ = None"

text \<open>The length of the sequence a leading byte announces (\<open>110xxxxx\<close>, \<open>1110xxxx\<close>,
  \<open>11110xxx\<close>), and the well-formed UTF-8 sequences (no overlong form, no surrogate,
  nothing above U+10FFFF).\<close>

definition utf8Len :: "nat \<Rightarrow> nat option" where
  "utf8Len b =
     (if 192 \<le> b \<and> b < 224 then Some 2
      else if 224 \<le> b \<and> b < 240 then Some 3
      else if 240 \<le> b \<and> b < 248 then Some 4
      else None)"

fun validUtf8 :: "nat list \<Rightarrow> bool" where
  "validUtf8 [b0, b1] = (194 \<le> b0)"
| "validUtf8 [b0, b1, b2] =
     ((if b0 = 224 then 160 \<le> b1 else True) \<and> (if b0 = 237 then b1 < 160 else True))"
| "validUtf8 [b0, b1, b2, b3] =
     ((if b0 = 240 then 144 \<le> b1 else True) \<and> (if b0 = 244 then b1 < 144 else True)
      \<and> b0 \<le> 244)"
| "validUtf8 _ = False"

text \<open>\<open>decodeURIComponent\<close>; \<open>None\<close> is the URIError it throws on a malformed escape.\<close>

fun decodeURIComponent :: "string \<Rightarrow> string option" where
  "decodeURIComponent [] = Some []"
| "decodeURIComponent (c # cs) =
     (if c \<noteq> CHR ''%'' then map_option ((#) c) (decodeURIComponent cs)
      else (case cs of
              a # b # rest \<Rightarrow>
                (case hexByte a b of
                   None \<Rightarrow> None
                 | Some b0 \<Rightarrow>
                     if b0 < 128 then map_option ((#) (char_of b0)) (decodeURIComponent rest)
                     else (case utf8Len b0 of
                             None \<Rightarrow> None
                           | Some n \<Rightarrow>
                               (case contOctets (take (3 * (n - 1)) rest) of
                                  None \<Rightarrow> None
                                | Some bs \<Rightarrow>
                                    if length bs = n - 1 \<and> validUtf8 (b0 # bs)
                                    then map_option ((@) (map char_of (b0 # bs)))
                                           (decodeURIComponent (drop (3 * (n - 1)) rest))
                                    else None)))
            | _ \<Rightarrow> None))"

section \<open>The staging overlay: MemoryStorage\<close>

text \<open>
  \<open>state\<close> is the object holding the entries: an association list in insertion order,
  where a key may be present with the value \<open>undefined\<close> (\<open>None\<close>). \<open>fallback\<close> is the
  storage this one is layered on; the storage made by \<open>new MemoryStorage()\<close> has none.
  A child refers to its parent, and what the child does to the parent is seen by the parent's
  other users: the model keeps the parent inside the child and returns it updated.
  The keys of \<open>state\<close> are listed in the order they were first set; a JavaScript engine
  lists keys that look like array indices before the others, which the model leaves out, as
  it does the properties every object inherits.
\<close>

datatype 'v MemoryStorage =
  MemoryStorage (state: "(string \<times> 'v option) list") (pendingKeys: "string list")
    (fallback: "'v MemoryStorage option")

datatype error = Error string | URIError

fun getItem :: "'v MemoryStorage \<Rightarrow> string \<Rightarrow> 'v option \<times> 'v MemoryStorage" where
  "getItem (MemoryStorage st pk None) key =
     ((case map_of st key of Some v \<Rightarrow> v | None \<Rightarrow> None), MemoryStorage st pk None)"
| "getItem (MemoryStorage st pk (Some fb)) key =
     (case map_of st key of
        Some v \<Rightarrow> (v, MemoryStorage st pk (Some fb))
      | None \<Rightarrow>
          (case getItem fb key of
             (v, fb') \<Rightarrow> (v, MemoryStorage (AList.update key v st) pk (Some fb'))))"

fun setItem :: "'v MemoryStorage \<Rightarrow> string \<Rightarrow> 'v option \<Rightarrow> 'v MemoryStorage" where
  "setItem (MemoryStorage st pk None) key v = MemoryStorage (AList.update key v st) pk None"
| "setItem (MemoryStorage st pk (Some fb)) key v =
     MemoryStorage (AList.update key v st) (pk @ [key]) (Some fb)"

fun removeItem :: "'v MemoryStorage \<Rightarrow> string \<Rightarrow> 'v MemoryStorage" where
  "removeItem (MemoryStorage st pk None) key = MemoryStorage (AList.delete key st) pk None"
| "removeItem (MemoryStorage st pk (Some fb)) key =
     MemoryStorage (AList.delete key st) (pk @ [key]) (Some (removeItem fb key))"

text \<open>\<open>Array.from(new Set(keys))\<close>: the first occurrence of every key, in order.\<close>

definition uniq :: "'a list \<Rightarrow> 'a list" where
  "uniq xs = rev (remdups (rev xs))"

fun getAllKeys :: "'v MemoryStorage \<Rightarrow> string list" where
  "getAllKeys (MemoryStorage st pk None) = uniq (map fst st)"
| "getAllKeys (MemoryStorage st pk (Some fb)) = uniq (getAllKeys fb @ map fst st)"

definition clear :: "'v MemoryStorage \<Rightarrow> 'v MemoryStorage" where
  "clear s = MemoryStorage [] [] (fallback s)"

text \<open>\<open>commit\<close> replays the pending keys on the fallback, in the order they were noted: a
  key the state holds is set there, any other key is removed there.\<close>

definition flushKey ::
  "(string \<times> 'v option) list \<Rightarrow> 'v MemoryStorage \<Rightarrow> string \<Rightarrow> 'v MemoryStorage" where
  "flushKey st fb key =
     (case map_of st key of Some v \<Rightarrow> setItem fb key v | None \<Rightarrow> removeItem fb key)"

definition commit :: "'v MemoryStorage \<Rightarrow> 'v MemoryStorage" where
  "commit s =
     (case fallback s of
        None \<Rightarrow> s
      | Some fb \<Rightarrow> MemoryStorage (state s) [] (Some (foldl (flushKey (state s)) fb (pendingKeys s))))"

text \<open>
  \<open>transaction fn\<close> on a storage \<open>s\<close>: a new child of \<open>s\<close> is handed to the callback. The
  callback returns the child as it left it and the error it threw, if any. On an error the
  child is cleared and the error re-raised, otherwise the child is committed. The result is
  the storage \<open>s\<close> as it is afterwards.
\<close>

definition transaction ::
  "('v MemoryStorage \<Rightarrow> 'v MemoryStorage \<times> error option) \<Rightarrow> 'v MemoryStorage
     \<Rightarrow> 'v MemoryStorage \<times> error option" where
  "transaction fn s =
     (case fn (MemoryStorage [] [] (Some s)) of
        (trx, Some e) \<Rightarrow> ((case fallback (clear trx) of Some p \<Rightarrow> p | None \<Rightarrow> s), Some e)
      | (trx, None) \<Rightarrow> ((case fallback (commit trx) of Some p \<Rightarrow> p | None \<Rightarrow> s), None))"

text \<open>The calls a callback makes on the storage it is given, and a callback that makes a
  list of them and then throws, or returns.\<close>

datatype 'v storageOp = GetItem string | SetItem string "'v option" | RemoveItem string

fun perform :: "'v MemoryStorage \<Rightarrow> 'v storageOp \<Rightarrow> 'v MemoryStorage" where
  "perform s (GetItem k) = snd (getItem s k)"
| "perform s (SetItem k v) = setItem s k v"
| "perform s (RemoveItem k) = removeItem s k"

definition thenThrow ::
  "'v storageOp list \<Rightarrow> error \<Rightarrow> 'v MemoryStorage \<Rightarrow> 'v MemoryStorage \<times> error option" where
  "thenThrow ops e trx = (foldl perform trx ops, Some e)"

definition thenReturn ::
  "'v storageOp list \<Rightarrow> 'v MemoryStorage \<Rightarrow> 'v MemoryStorage \<times> error option" where
  "thenReturn ops trx = (foldl perform trx ops, None)"


section \<open>Tables, stored records and keys\<close>

text \<open>
  A row is an object of attributes; \<open>item[column]\<close> is \<open>undefined\<close> for a missing
  attribute. Objects are modelled by their own properties: the names every object inherits
  (\<open>inheritedNames\<close> below) read as \<open>undefined\<close> in the model, and the properties about
  index records are stated for tables that do not use them. The records the database stores are rows, the index snapshot of a row
  (\<open>IndexValue\<close>: index name to value), the group list of an index (\<open>TableIndex\<close>) and the
  meta record of a table with its \<open>lastSync\<close>.
\<close>

type_synonym row = "(string \<times> jsval) list"

definition attr :: "row \<Rightarrow> string \<Rightarrow> jsval" where
  "attr item column = (case map_of item column of Some v \<Rightarrow> v | None \<Rightarrow> Undefined)"

datatype group = Group (gvalue: jsval) (ids: "jsval list")

datatype stored =
  Row row | IndexValue "(string \<times> jsval) list" | TableIndex "group list" | Meta "string option"

datatype indexDef = Column string | Factory "row \<Rightarrow> jsval"

text \<open>
  A table definition. \<open>indexes\<close> is an object, so its names are distinct. \<open>getSince\<close> and
  \<open>isItemDeleted\<close> are the collaborators; either may throw. The argument of \<open>getSince\<close>
  is the date of the last sync, or \<open>null\<close>. The database's storage is a \<open>MemoryStorage\<close>;
  the flag \<open>syncing\<close> is left out.
\<close>

record Table =
  key :: string
  keyPath :: string
  indexes :: "(string \<times> indexDef) list"
  getSince :: "string option \<Rightarrow> error + row list"
  isItemDeleted :: "row \<Rightarrow> error + bool"
  forceSync :: bool

definition storageKey_table :: "string \<Rightarrow> string" where
  "storageKey_table k = encodeURIComponent k"

definition storageKey_tableMeta :: "string \<Rightarrow> string" where
  "storageKey_tableMeta k = storageKey_table k @ ''/meta''"

definition storageKey_rows :: "string \<Rightarrow> string" where
  "storageKey_rows k = storageKey_table k @ ''/rows''"

definition storageKey_row :: "string \<Rightarrow> string \<Rightarrow> string" where
  "storageKey_row k i = storageKey_rows k @ ''/'' @ encodeURIComponent i"

definition storageKey_rowIndex :: "string \<Rightarrow> string \<Rightarrow> string" where
  "storageKey_rowIndex k i = storageKey_table k @ ''/rows/'' @ encodeURIComponent i @ ''/indexes''"

definition storageKey_index :: "string \<Rightarrow> string \<Rightarrow> string" where
  "storageKey_index k indexName = storageKey_table k @ ''/indexes/'' @ encodeURIComponent indexName"

text \<open>
  The id of a row is the value at the key path, whatever its type. The index groups keep
  the value as it is and compare it with \<open>!==\<close>; the key scheme turns it into its string
  form (\<open>encodeURIComponent\<close> coerces its argument).
\<close>

definition rowId :: "Table \<Rightarrow> row \<Rightarrow> jsval" where
  "rowId t item = attr item (keyPath t)"

section \<open>The index and row engine\<close>

text \<open>
  Inside a transaction \<open>trx\<close> is the child overlay and \<open>this.storage\<close> is its parent;
  \<open>onStorage\<close> runs an operation on \<open>this.storage\<close>. When \<open>trx\<close> has no parent it is the
  database's storage itself.
\<close>

fun onStorage ::
  "('v MemoryStorage \<Rightarrow> 'v MemoryStorage) \<Rightarrow> 'v MemoryStorage \<Rightarrow> 'v MemoryStorage" where
  "onStorage f (MemoryStorage st pk (Some fb)) = MemoryStorage st pk (Some (f fb))"
| "onStorage f (MemoryStorage st pk None) = f (MemoryStorage st pk None)"

fun theStorage :: "'v MemoryStorage \<Rightarrow> 'v MemoryStorage" where
  "theStorage (MemoryStorage st pk (Some fb)) = fb"
| "theStorage (MemoryStorage st pk None) = MemoryStorage st pk None"

definition setTableMeta :: "Table \<Rightarrow> string option \<Rightarrow> stored MemoryStorage \<Rightarrow> stored MemoryStorage" where
  "setTableMeta t lastSync s = setItem s (storageKey_tableMeta (key t)) (Some (Meta lastSync))"

text \<open>\<open>getTableMeta\<close> returns the \<open>lastSync\<close> of the stored meta record; when the key holds
  nothing it stores and returns a record with \<open>lastSync: null\<close>. Any other record under
  the key has no \<open>lastSync\<close>; the key scheme puts none there.\<close>

definition getTableMeta :: "Table \<Rightarrow> stored MemoryStorage \<Rightarrow> string option \<times> stored MemoryStorage" where
  "getTableMeta t s =
     (case getItem s (storageKey_tableMeta (key t)) of
        (Some (Meta lastSync), s') \<Rightarrow> (lastSync, s')
      | (Some _, s') \<Rightarrow> (None, s')
      | (None, s') \<Rightarrow> (None, setTableMeta t None s'))"

definition recalculateIndexes :: "Table \<Rightarrow> row \<Rightarrow> (string \<times> jsval) list" where
  "recalculateIndexes t item =
     map (\<lambda>(indexName, columnName).
            (indexName, (case columnName of Factory f \<Rightarrow> f item | Column c \<Rightarrow> attr item c)))
         (indexes t)"

definition asIndexValue :: "stored option \<Rightarrow> (string \<times> jsval) list" where
  "asIndexValue v = (case v of Some (IndexValue iv) \<Rightarrow> iv | _ \<Rightarrow> [])"

definition asTableIndex :: "stored option \<Rightarrow> group list" where
  "asTableIndex v = (case v of Some (TableIndex gs) \<Rightarrow> gs | _ \<Rightarrow> [])"

text \<open>Taking an id out of the groups whose value is \<open>remove\<close>, and adding an id to the
  groups whose value is \<open>add\<close>, or to a new group when there is none.\<close>

definition stripId :: "jsval \<Rightarrow> jsval \<Rightarrow> group list \<Rightarrow> group list" where
  "stripId i remove index =
     map (\<lambda>g. if \<not> strictEq (gvalue g) remove then g
               else Group (gvalue g) (filter (\<lambda>j. \<not> strictEq j i) (ids g))) index"

definition appendId :: "jsval \<Rightarrow> jsval \<Rightarrow> group list \<Rightarrow> group list" where
  "appendId i add index =
     (let found = list_ex (\<lambda>g. strictEq (gvalue g) add) index;
          index' = map (\<lambda>g. if \<not> strictEq (gvalue g) add then g
                             else Group (gvalue g) (ids g @ [i])) index
      in if found then index' else index' @ [Group add [i]])"

definition lookup :: "(string \<times> jsval) list \<Rightarrow> string \<Rightarrow> jsval" where
  "lookup obj k = (case map_of obj k of Some v \<Rightarrow> v | None \<Rightarrow> Undefined)"

definition hasKey :: "(string \<times> 'a) list \<Rightarrow> string \<Rightarrow> bool" where
  "hasKey obj k = (map_of obj k \<noteq> None)"

text \<open>The body of the loop of \<open>deleteItem\<close> over the index names.\<close>

definition stripIndex ::
  "Table \<Rightarrow> jsval \<Rightarrow> (string \<times> jsval) list \<Rightarrow> stored MemoryStorage \<Rightarrow> string
     \<Rightarrow> stored MemoryStorage" where
  "stripIndex t i removeFrom trx indexName =
     (let remove = lookup removeFrom indexName;
          indexKey = storageKey_index (key t) indexName;
          (w, trx') = getItem trx indexKey;
          index = asTableIndex w;
          index1 = (if remove \<noteq> Undefined then stripId i remove index else index)
      in setItem trx' indexKey (Some (TableIndex index1)))"

definition deleteItem :: "Table \<Rightarrow> jsval \<Rightarrow> stored MemoryStorage \<Rightarrow> stored MemoryStorage" where
  "deleteItem t i trx =
     (let indexesKey = storageKey_rowIndex (key t) (toStr i);
          rowKey = storageKey_row (key t) (toStr i);
          (v, trx1) = getItem trx indexesKey;
          removeFrom = asIndexValue v;
          trx2 = foldl (stripIndex t i removeFrom) trx1 (map fst (indexes t))
      in removeItem (removeItem trx2 rowKey) indexesKey)"

text \<open>The body of the loop of \<open>Database.setItem\<close> over the index names.\<close>

definition updateIndex ::
  "Table \<Rightarrow> jsval \<Rightarrow> (string \<times> jsval) list \<Rightarrow> (string \<times> jsval) list
     \<Rightarrow> stored MemoryStorage \<Rightarrow> string \<Rightarrow> stored MemoryStorage" where
  "updateIndex t i removeFrom updateTo trx indexName =
     (if \<not> hasKey removeFrom indexName \<and> \<not> hasKey updateTo indexName then trx
      else
        let indexKey = storageKey_index (key t) indexName;
            (w, trx') = getItem trx indexKey;
            index = asTableIndex w;
            remove = lookup removeFrom indexName;
            index1 = (if remove \<noteq> Undefined then stripId i remove index else index);
            add = lookup updateTo indexName;
            index2 = (if add \<noteq> Undefined then appendId i add index1 else index1)
        in setItem trx' indexKey (Some (TableIndex index2)))"

text \<open>
  The two loops of \<open>Database.setItem\<close> over the old and the new index values of a row:
  \<open>removeFrom\<close> has the old values that are gone or have changed, \<open>updateTo\<close> the new
  values that are defined and were not there or have changed.
\<close>

definition removeFromOf ::
  "(string \<times> jsval) list \<Rightarrow> (string \<times> jsval) list \<Rightarrow> (string \<times> jsval) list" where
  "removeFromOf oldIndexes newIndexes =
     filter (\<lambda>(k, ov). \<not> hasKey newIndexes k \<or> \<not> strictEq ov (lookup newIndexes k)) oldIndexes"

definition updateToOf ::
  "(string \<times> jsval) list \<Rightarrow> (string \<times> jsval) list \<Rightarrow> (string \<times> jsval) list" where
  "updateToOf oldIndexes newIndexes =
     filter (\<lambda>(k, nv). nv \<noteq> Undefined
                        \<and> (\<not> hasKey oldIndexes k \<or> \<not> strictEq (lookup oldIndexes k) nv))
       newIndexes"

text \<open>\<open>Database.setItem\<close>; the error is the one \<open>isItemDeleted\<close> threw.\<close>

definition setItem_Database ::
  "Table \<Rightarrow> row \<Rightarrow> stored MemoryStorage \<Rightarrow> stored MemoryStorage \<times> error option" where
  "setItem_Database t item trx =
     (case isItemDeleted t item of
        Inl e \<Rightarrow> (trx, Some e)
      | Inr True \<Rightarrow> (deleteItem t (rowId t item) trx, None)
      | Inr False \<Rightarrow>
          (let i = rowId t item;
               itemKey = storageKey_row (key t) (toStr i);
               indexesKey = storageKey_rowIndex (key t) (toStr i);
               (v, trx1) = getItem trx indexesKey;
               oldIndexes = asIndexValue v;
               trx2 = setItem trx1 itemKey (Some (Row item));
               newIndexes = recalculateIndexes t item;
               removeFrom = removeFromOf oldIndexes newIndexes;
               updateTo = updateToOf oldIndexes newIndexes;
               trx3 = setItem trx2 indexesKey (Some (IndexValue newIndexes))
           in (foldl (updateIndex t i removeFrom updateTo) trx3 (map fst (indexes t)), None)))"

definition startsWith :: "string \<Rightarrow> string \<Rightarrow> bool" where
  "startsWith s pre = (take (length pre) s = pre)"

definition clearTable :: "Table \<Rightarrow> stored MemoryStorage \<Rightarrow> stored MemoryStorage" where
  "clearTable t trx =
     foldl removeItem trx (filter (\<lambda>k. startsWith k (key t)) (getAllKeys (theStorage trx)))"

section \<open>Sync\<close>

fun setItems ::
  "Table \<Rightarrow> row list \<Rightarrow> stored MemoryStorage \<Rightarrow> stored MemoryStorage \<times> error option" where
  "setItems t [] trx = (trx, None)"
| "setItems t (item # items) trx =
     (case setItem_Database t item trx of
        (trx', Some e) \<Rightarrow> (trx', Some e)
      | (trx', None) \<Rightarrow> setItems t items trx')"

text \<open>
  \<open>mergeTable\<close> reads the meta record and returns the function that merges the items in a
  transaction; \<open>mergeCommit\<close> is that function, \<open>now\<close> the time it reads at its end (one
  time for all tables of a sync in the model).
\<close>

definition mergeCommit ::
  "string \<Rightarrow> Table \<Rightarrow> row list \<Rightarrow> stored MemoryStorage \<Rightarrow> stored MemoryStorage \<times> error option" where
  "mergeCommit now t updatedItems trx =
     (case setItems t updatedItems (if forceSync t then clearTable t trx else trx) of
        (trx', Some e) \<Rightarrow> (trx', Some e)
      | (trx', None) \<Rightarrow> (onStorage (setTableMeta t (Some now)) trx', None))"

definition mergeTable ::
  "Table \<Rightarrow> row list \<Rightarrow> stored MemoryStorage \<Rightarrow> (Table \<times> row list) \<times> stored MemoryStorage" where
  "mergeTable t updatedItems s = (case getTableMeta t s of (meta, s') \<Rightarrow> ((t, updatedItems), s'))"

definition sinceOf :: "Table \<Rightarrow> string option \<Rightarrow> string option" where
  "sinceOf t lastSync =
     (case lastSync of
        Some d \<Rightarrow> if d \<noteq> [] \<and> \<not> forceSync t then Some d else None
      | None \<Rightarrow> None)"

definition syncTable ::
  "Table \<Rightarrow> stored MemoryStorage \<Rightarrow> (error + Table \<times> row list) \<times> stored MemoryStorage" where
  "syncTable t s =
     (case getTableMeta t s of
        (lastSync, s1) \<Rightarrow>
          (case getSince t (sinceOf t lastSync) of
             Inl e \<Rightarrow> (Inl e, s1)
           | Inr data \<Rightarrow> (case mergeTable t data s1 of (c, s2) \<Rightarrow> (Inr c, s2))))"

text \<open>
  The fetch phase of \<open>sync\<close>: \<open>syncTable\<close> for every table. The calls are started together
  and none is cancelled when another fails; each touches only the meta key of its table, so
  the model runs them in registration order and keeps the first error.
\<close>

fun fetchAll ::
  "Table list \<Rightarrow> stored MemoryStorage
     \<Rightarrow> (error + (Table \<times> row list) list) \<times> stored MemoryStorage" where
  "fetchAll [] s = (Inr [], s)"
| "fetchAll (t # ts) s =
     (case syncTable t s of
        (r, s1) \<Rightarrow>
          (case fetchAll ts s1 of
             (rs, s2) \<Rightarrow>
               ((case r of
                   Inl e \<Rightarrow> Inl e
                 | Inr c \<Rightarrow> (case rs of Inl e \<Rightarrow> Inl e | Inr cs \<Rightarrow> Inr (c # cs))), s2)))"

fun runCommits ::
  "string \<Rightarrow> (Table \<times> row list) list \<Rightarrow> stored MemoryStorage
     \<Rightarrow> stored MemoryStorage \<times> error option" where
  "runCommits now [] trx = (trx, None)"
| "runCommits now ((t, items) # cs) trx =
     (case mergeCommit now t items trx of
        (trx', Some e) \<Rightarrow> (trx', Some e)
      | (trx', None) \<Rightarrow> runCommits now cs trx')"

text \<open>\<open>sync\<close> on the database's storage \<open>s\<close> with the registered tables; the result is the
  storage afterwards and the error \<open>sync\<close> propagates, if any.\<close>

definition sync ::
  "string \<Rightarrow> Table list \<Rightarrow> stored MemoryStorage \<Rightarrow> stored MemoryStorage \<times> error option" where
  "sync now tables s =
     (case fetchAll tables s of
        (Inl e, s1) \<Rightarrow> (s1, Some e)
      | (Inr commitFunctions, s1) \<Rightarrow> transaction (runCommits now commitFunctions) s1)"

text \<open>\<open>table.patch(item)\<close>, without a transaction of the caller's and with one.\<close>

definition patch :: "Table \<Rightarrow> row \<Rightarrow> stored MemoryStorage \<Rightarrow> stored MemoryStorage \<times> error option" where
  "patch t item s = transaction (setItem_Database t item) s"


section \<open>The query planner\<close>

text \<open>
  A filter maps names to literals or predicate functions. The candidate ids start as the
  filter's own value at the key path, so a candidate is a filter value; the ids read from
  an index group or from the storage keys are strings.
\<close>

datatype fval = Lit jsval | Pred "jsval \<Rightarrow> bool"

type_synonym pagination = "int option \<times> int option"

definition seedIds :: "Table \<Rightarrow> (string \<times> fval) list \<Rightarrow> fval list option" where
  "seedIds t flt =
     (case map_of flt (keyPath t) of
        None \<Rightarrow> None
      | Some (Pred p) \<Rightarrow> Some [Pred p]
      | Some (Lit v) \<Rightarrow> if truthy v then Some [Lit v] else None)"

text \<open>\<open>group.ids.map(decodeURIComponent)\<close>, which takes the string form of every id and
  throws when one is malformed.\<close>

fun decodeIds :: "jsval list \<Rightarrow> error + string list" where
  "decodeIds [] = Inr []"
| "decodeIds (i # is) =
     (case decodeURIComponent (toStr i) of
        None \<Rightarrow> Inl URIError
      | Some d \<Rightarrow> (case decodeIds is of Inl e \<Rightarrow> Inl e | Inr ds \<Rightarrow> Inr (d # ds)))"

text \<open>\<open>groupIds.includes(id)\<close>: only a string is among the strings.\<close>

fun includesId :: "string list \<Rightarrow> fval \<Rightarrow> bool" where
  "includesId groupIds (Lit (Str i)) = (i \<in> set groupIds)"
| "includesId groupIds _ = False"

definition narrow :: "fval list option \<Rightarrow> string list \<Rightarrow> fval list option" where
  "narrow candidates groupIds =
     (case candidates of
        None \<Rightarrow> Some (map (\<lambda>i. Lit (Str i)) groupIds)
      | Some cs \<Rightarrow> Some (filter (includesId groupIds) cs))"

text \<open>The filter object as a function index sees it: its literal entries.\<close>

definition filterRow :: "(string \<times> fval) list \<Rightarrow> row" where
  "filterRow flt = concat (map (\<lambda>(n, v). case v of Lit l \<Rightarrow> [(n, l)] | Pred p \<Rightarrow> []) flt)"

text \<open>The first loop of \<open>queryTable\<close>, over the function indexes. The state is the candidate
  ids and the index keys used so far.\<close>

fun factoryLoop ::
  "stored MemoryStorage \<Rightarrow> Table \<Rightarrow> (string \<times> fval) list \<Rightarrow> (string \<times> indexDef) list
     \<Rightarrow> fval list option \<times> string list \<Rightarrow> error + fval list option \<times> string list" where
  "factoryLoop s t flt [] acc = Inr acc"
| "factoryLoop s t flt ((indexName, Column c) # rest) acc = factoryLoop s t flt rest acc"
| "factoryLoop s t flt ((indexName, Factory f) # rest) (candidates, used) =
     (let indexKey = storageKey_index (key t) indexName;
          index = asTableIndex (fst (getItem s indexKey));
          indexValue = f (filterRow flt)
      in if indexValue = Undefined then factoryLoop s t flt rest (candidates, used)
         else (case find (\<lambda>g. strictEq (gvalue g) indexValue) index of
                 None \<Rightarrow> factoryLoop s t flt rest (candidates, used)
               | Some g \<Rightarrow>
                   (case decodeIds (ids g) of
                      Inl e \<Rightarrow> Inl e
                    | Inr groupIds \<Rightarrow>
                        factoryLoop s t flt rest
                          (narrow candidates groupIds, used @ [indexKey]))))"

text \<open>The name of the first column index on a column, if any.\<close>

definition columnIndex :: "Table \<Rightarrow> string \<Rightarrow> string option" where
  "columnIndex t name =
     map_option fst (find (\<lambda>(n, d). case d of Column c \<Rightarrow> c = name | Factory f \<Rightarrow> False) (indexes t))"

definition findGroup :: "fval \<Rightarrow> group list \<Rightarrow> group option" where
  "findGroup v index =
     (case v of
        Pred p \<Rightarrow> find (\<lambda>g. p (gvalue g)) index
      | Lit l \<Rightarrow> find (\<lambda>g. strictEq (gvalue g) l) index)"

text \<open>The second loop, over the entries of the filter. The state has the scan filters as
  well. An index whose name is the empty string counts as no index (\<open>!indexName\<close>).\<close>

fun columnLoop ::
  "stored MemoryStorage \<Rightarrow> Table \<Rightarrow> (string \<times> fval) list
     \<Rightarrow> fval list option \<times> string list \<times> (string \<times> fval) list
     \<Rightarrow> error + fval list option \<times> string list \<times> (string \<times> fval) list" where
  "columnLoop s t [] acc = Inr acc"
| "columnLoop s t ((name, v) # rest) (candidates, used, scanFilters) =
     (case columnIndex t name of
        None \<Rightarrow> columnLoop s t rest (candidates, used, AList.update name v scanFilters)
      | Some indexName \<Rightarrow>
          if indexName = [] then columnLoop s t rest (candidates, used, AList.update name v scanFilters)
          else
            (let indexKey = storageKey_index (key t) indexName;
                 index = asTableIndex (fst (getItem s indexKey))
             in case findGroup v index of
                  None \<Rightarrow> columnLoop s t rest (candidates, used, AList.update name v scanFilters)
                | Some g \<Rightarrow>
                    (case decodeIds (ids g) of
                       Inl e \<Rightarrow> Inl e
                     | Inr groupIds \<Rightarrow>
                         columnLoop s t rest
                           (narrow candidates groupIds, used @ [indexKey], scanFilters))))"

text \<open>\<open>s.split(d)\<close> for a one-character separator.\<close>

fun splitOn :: "char \<Rightarrow> string \<Rightarrow> string list" where
  "splitOn d [] = [[]]"
| "splitOn d (c # cs) =
     (if c = d then [] # splitOn d cs
      else (case splitOn d cs of seg # segs \<Rightarrow> (c # seg) # segs | [] \<Rightarrow> [[c]]))"

text \<open>
  The full scan maps every storage key that starts with the rows prefix to an id: the
  second segment of what follows the prefix, decoded, unless a third segment follows it
  (the key of an index snapshot). \<open>Inr None\<close> is the entry \<open>filter(Boolean)\<close> drops:
  \<open>undefined\<close> or the empty string.
\<close>

definition scanId :: "string \<Rightarrow> string \<Rightarrow> error + string option" where
  "scanId rowsKeys k =
     (let segs = drop 1 (splitOn CHR ''/'' (drop (length rowsKeys) k));
          i = (case segs of [] \<Rightarrow> ''undefined'' | x # _ \<Rightarrow> x);
          index = (case segs of _ # y # _ \<Rightarrow> y | _ \<Rightarrow> [])
      in if index \<noteq> [] then Inr None
         else (case decodeURIComponent i of
                 None \<Rightarrow> Inl URIError
               | Some d \<Rightarrow> Inr (if d = [] then None else Some d)))"

fun scanIds :: "string \<Rightarrow> string list \<Rightarrow> error + fval list" where
  "scanIds rowsKeys [] = Inr []"
| "scanIds rowsKeys (k # ks) =
     (case scanId rowsKeys k of
        Inl e \<Rightarrow> Inl e
      | Inr r \<Rightarrow>
          (case scanIds rowsKeys ks of
             Inl e \<Rightarrow> Inl e
           | Inr is \<Rightarrow> Inr ((case r of None \<Rightarrow> [] | Some i \<Rightarrow> [Lit (Str i)]) @ is)))"

text \<open>Reading the row of a candidate. A function as candidate is turned into its source
  text by the key scheme; the model takes no row to be stored under such a text.\<close>

definition fetchRow :: "stored MemoryStorage \<Rightarrow> Table \<Rightarrow> fval \<Rightarrow> row option" where
  "fetchRow s t candidate =
     (case candidate of
        Pred p \<Rightarrow> None
      | Lit v \<Rightarrow>
          (case fst (getItem s (storageKey_row (key t) (toStr v))) of
             Some (Row r) \<Rightarrow> Some r
           | _ \<Rightarrow> None))"

definition matches :: "(string \<times> fval) list \<Rightarrow> row \<Rightarrow> bool" where
  "matches scanFilters r =
     list_all (\<lambda>(column, v). case v of Pred p \<Rightarrow> p (attr r column)
                                      | Lit l \<Rightarrow> strictEq (attr r column) l) scanFilters"

text \<open>
  The last loop: \<open>offsetRemaining\<close> is \<open>Number(offset)\<close>, which is \<open>NaN\<close> (\<open>None\<close>) when no
  offset is given; \<open>limit\<close> is \<open>None\<close> when none is given. The loop returns the rows and
  the number of candidates it has visited.
\<close>

fun collect ::
  "(fval \<Rightarrow> row option) \<Rightarrow> (row \<Rightarrow> bool) \<Rightarrow> int option \<Rightarrow> fval list \<Rightarrow> int option
     \<Rightarrow> row list \<Rightarrow> nat \<Rightarrow> row list \<times> nat" where
  "collect fetch match limit [] offsetRemaining result visited = (result, visited)"
| "collect fetch match limit (i # is) offsetRemaining result visited =
     (case fetch i of
        None \<Rightarrow> collect fetch match limit is offsetRemaining result (Suc visited)
      | Some r \<Rightarrow>
          if match r then
            (if offsetRemaining \<noteq> None \<and> offsetRemaining \<noteq> Some 0
             then collect fetch match limit is (map_option (\<lambda>n. n - 1) offsetRemaining) result
                    (Suc visited)
             else if limit \<noteq> None \<and> limit \<noteq> Some 0
                     \<and> (case limit of Some l \<Rightarrow> l \<le> int (length (result @ [r])) | None \<Rightarrow> False)
                  then (result @ [r], Suc visited)
                  else collect fetch match limit is offsetRemaining (result @ [r]) (Suc visited))
          else collect fetch match limit is offsetRemaining result (Suc visited))"

text \<open>\<open>queryTable\<close> on the database's storage: the rows and the index keys used.\<close>

definition queryTable ::
  "stored MemoryStorage \<Rightarrow> Table \<Rightarrow> (string \<times> fval) list \<Rightarrow> pagination
     \<Rightarrow> error + row list \<times> string list" where
  "queryTable s t flt p =
     (case factoryLoop s t flt (indexes t) (seedIds t flt, []) of
        Inl e \<Rightarrow> Inl e
      | Inr (c1, u1) \<Rightarrow>
          (case columnLoop s t flt (c1, u1, []) of
             Inl e \<Rightarrow> Inl e
           | Inr (c2, used, scanFilters) \<Rightarrow>
               (case (case c2 of
                        Some candidates \<Rightarrow> Inr candidates
                      | None \<Rightarrow>
                          scanIds (storageKey_rows (key t))
                            (filter (\<lambda>k. startsWith k (storageKey_rows (key t)))
                               (getAllKeys s))) of
                  Inl e \<Rightarrow> Inl e
                | Inr candidates \<Rightarrow>
                    Inr (fst (collect (fetchRow s t) (matches scanFilters) (fst p) candidates
                                (snd p) [] 0), used))))"

section \<open>Vocabulary of the properties\<close>

text \<open>The keys an overlay holds in its state after a call: a read or a write of a key puts
  the key there, a removal takes it out.\<close>

fun held :: "string set \<Rightarrow> 'v storageOp \<Rightarrow> string set" where
  "held K (GetItem k) = insert k K"
| "held K (SetItem k v) = insert k K"
| "held K (RemoveItem k) = K - {k}"

text \<open>Tables for the concrete cases: the key path is \<open>id\<close>, the rows \<open>getSince\<close> returns
  are given, and a row is deleted when its attribute \<open>deleted\<close> is truthy. The second table
  has an \<open>isItemDeleted\<close> that throws.\<close>

definition exampleTable :: "string \<Rightarrow> (string \<times> indexDef) list \<Rightarrow> bool \<Rightarrow> row list \<Rightarrow> Table" where
  "exampleTable k ixs force items =
     \<lparr>key = k, keyPath = ''id'', indexes = ixs, getSince = (\<lambda>since. Inr items),
      isItemDeleted = (\<lambda>item. Inr (truthy (attr item ''deleted''))), forceSync = force\<rparr>"

definition throwingTable :: "string \<Rightarrow> row list \<Rightarrow> Table" where
  "throwingTable k items =
     (exampleTable k [] False items)\<lparr>isItemDeleted := (\<lambda>item. Inl (Error ''boom''))\<rparr>"

text \<open>The keys a list of calls removes, in order.\<close>

fun removals :: "'v storageOp list \<Rightarrow> string list" where
  "removals [] = []"
| "removals (RemoveItem k # ops) = k # removals ops"
| "removals (_ # ops) = removals ops"

text \<open>What a storage shows under a key: the value \<open>getItem\<close> returns.\<close>

definition view :: "'v MemoryStorage \<Rightarrow> string \<Rightarrow> 'v option" where
  "view s k = fst (getItem s k)"

text \<open>The rows of the candidates, in order, that are stored and pass the scan filters; and
  the number of matches an offset skips (none when no offset is given).\<close>

fun matchingRows :: "(fval \<Rightarrow> row option) \<Rightarrow> (row \<Rightarrow> bool) \<Rightarrow> fval list \<Rightarrow> row list" where
  "matchingRows fetch match [] = []"
| "matchingRows fetch match (i # is) =
     (case fetch i of
        None \<Rightarrow> matchingRows fetch match is
      | Some r \<Rightarrow> if match r then r # matchingRows fetch match is else matchingRows fetch match is)"

definition offsetOf :: "int option \<Rightarrow> nat" where
  "offsetOf off = (case off of None \<Rightarrow> 0 | Some k \<Rightarrow> nat k)"


definition snapshotOf :: "Table \<Rightarrow> stored MemoryStorage \<Rightarrow> string \<Rightarrow> (string \<times> jsval) list" where
  "snapshotOf t s i = asIndexValue (view s (storageKey_rowIndex (key t) i))"

definition indexValue :: "indexDef \<Rightarrow> row \<Rightarrow> jsval" where
  "indexValue d item = (case d of Factory f \<Rightarrow> f item | Column c \<Rightarrow> attr item c)"



text \<open>An overlay agrees with its parent: what it has cached from a read is what the parent
  shows, and a key it has removed shows nothing in the parent.\<close>

definition coherent :: "'v MemoryStorage \<Rightarrow> bool" where
  "coherent c =
     (case fallback c of
        None \<Rightarrow> False
      | Some p \<Rightarrow>
          (\<forall>k. (k \<notin> set (pendingKeys c)
                   \<longrightarrow> (\<forall>v. map_of (state c) k = Some v \<longrightarrow> view p k = v))
               \<and> (k \<in> set (pendingKeys c) \<and> map_of (state c) k = None \<longrightarrow> view p k = None)))"

text \<open>
  The operations on the rows of a table: \<open>Database.setItem\<close> and \<open>deleteItem\<close> on a
  storage, and \<open>table.patch\<close>, which runs \<open>Database.setItem\<close> in a transaction of its own.
  A table is empty in a storage that shows no index and no snapshot of it. The rows written
  are free of \<open>NaN\<close> when no index of the table has the value \<open>NaN\<close> for them.
\<close>

datatype rowOp = WriteItem row | RemoveRow jsval | PatchItem row



fun written :: "rowOp \<Rightarrow> row list" where
  "written (WriteItem item) = [item]"
| "written (RemoveRow i) = []"
| "written (PatchItem item) = [item]"





definition nanFree :: "Table \<Rightarrow> rowOp list \<Rightarrow> bool" where
  "nanFree t ops =
     (\<forall>item \<in> set (concat (map written ops)). \<forall>d \<in> snd ` set (indexes t). indexValue d item \<noteq> NaN)"

text \<open>The two changes \<open>deleteItem\<close> and \<open>Database.setItem\<close> make to a group list, each
  made only for a value that is not \<open>undefined\<close>.\<close>

definition stripIf :: "jsval \<Rightarrow> jsval \<Rightarrow> group list \<Rightarrow> group list" where
  "stripIf i remove index = (if remove \<noteq> Undefined then stripId i remove index else index)"

definition appendIf :: "jsval \<Rightarrow> jsval \<Rightarrow> group list \<Rightarrow> group list" where
  "appendIf i add index = (if add \<noteq> Undefined then appendId i add index else index)"

section \<open>Properties of the overlay\<close>

lemma set_uniq [simp]: "set (uniq xs) = set xs"
  by (simp add: uniq_def)

lemma keys_delete: "fst ` set (AList.delete k al) = fst ` set al - {k}"
proof -
  have "set (map fst (AList.delete k al)) = set (map fst al) - {k}"
    by (simp only: AList.delete_keys set_removeAll)
  then show ?thesis by simp
qed

text \<open>
  C1 (the code departs from the claim). A callback that removes a key and then throws: the
  removal has already been passed on to the backing store when the child is cleared, so the
  store has lost the key after \<open>transaction\<close> re-raises the error.
\<close>

theorem transaction_removeItem_then_throw:
  "transaction (thenThrow [RemoveItem ''key''] (Error ''boom''))
     (MemoryStorage [(''key'', Some (Num 123))] [] None)
   = (MemoryStorage [] [] None, Some (Error ''boom''))"
  by (simp add: transaction_def thenThrow_def clear_def AList.delete_eq)

text \<open>
  In general, on a storage without a parent: after a callback has made its calls and
  thrown, the storage is what it was with the keys removed that the callback removed. The
  writes of the callback are discarded, its removals are not.
\<close>

lemma perform_parent:
  "\<exists>st' pk'. perform (MemoryStorage st pk (Some (MemoryStorage pst ppk None))) op
     = MemoryStorage st' pk' (Some (foldl removeItem (MemoryStorage pst ppk None) (removals [op])))"
  by (cases op) (auto split: option.splits)

lemma removeItem_root: "\<exists>st'. removeItem (MemoryStorage st pk None) k = MemoryStorage st' pk None"
  by simp

lemma foldl_removeItem_root:
  "\<exists>st'. foldl removeItem (MemoryStorage st pk None) ks = MemoryStorage st' pk None"
  by (induction ks arbitrary: st) auto

lemma performAll_parent:
  "\<exists>st' pk'. foldl perform (MemoryStorage st pk (Some (MemoryStorage pst ppk None))) ops
     = MemoryStorage st' pk' (Some (foldl removeItem (MemoryStorage pst ppk None) (removals ops)))"
proof (induction ops arbitrary: st pk pst)
  case Nil
  then show ?case by simp
next
  case (Cons op ops)
  obtain st1 pk1 where 1: "perform (MemoryStorage st pk (Some (MemoryStorage pst ppk None))) op
     = MemoryStorage st1 pk1 (Some (foldl removeItem (MemoryStorage pst ppk None) (removals [op])))"
    using perform_parent by blast
  obtain pst1 where 2: "foldl removeItem (MemoryStorage pst ppk None) (removals [op]) = MemoryStorage pst1 ppk None"
    using foldl_removeItem_root by blast
  have 3: "removals (op # ops) = removals [op] @ removals ops" by (cases op) simp_all
  show ?case using Cons.IH[of st1 pk1 pst1] 1 2 3 by simp
qed

lemma failed_transaction_on_root:
  "transaction (thenThrow ops e) (MemoryStorage st pk None)
     = (foldl removeItem (MemoryStorage st pk None) (removals ops), Some e)"
proof -
  obtain st' pk' where "foldl perform (MemoryStorage [] [] (Some (MemoryStorage st pk None))) ops
     = MemoryStorage st' pk' (Some (foldl removeItem (MemoryStorage st pk None) (removals ops)))"
    using performAll_parent by blast
  then show ?thesis by (simp add: transaction_def thenThrow_def clear_def)
qed

lemma perform_overlay:
  "\<exists>st' pk' d'. perform (MemoryStorage st pk (Some d)) op = MemoryStorage st' pk' (Some d')
      \<and> fst ` set st' = held (fst ` set st) op"
proof (cases op)
  case (GetItem k)
  show ?thesis
  proof (cases "map_of st k")
    case None
    then show ?thesis using GetItem
      by (auto simp: AList.dom_update split: prod.splits)
  next
    case (Some v)
    then have "k \<in> fst ` set st"
      by (simp add: domI dom_map_of_conv_image_fst[symmetric])
    then show ?thesis using GetItem Some by (auto simp: insert_absorb)
  qed
next
  case (SetItem k v)
  then show ?thesis by (simp add: AList.dom_update)
next
  case (RemoveItem k)
  then show ?thesis by (simp add: keys_delete)
qed

lemma performAll_overlay:
  "\<exists>st' pk' d'. foldl perform (MemoryStorage st pk (Some d)) ops = MemoryStorage st' pk' (Some d')
      \<and> fst ` set st' = foldl held (fst ` set st) ops"
proof (induction ops arbitrary: st pk d)
  case Nil
  then show ?case by simp
next
  case (Cons op ops)
  obtain st1 pk1 d1
    where 1: "perform (MemoryStorage st pk (Some d)) op = MemoryStorage st1 pk1 (Some d1)"
      and 2: "fst ` set st1 = held (fst ` set st) op"
    using perform_overlay by blast
  show ?case using Cons.IH[of st1 pk1 d1] 1 2 by simp
qed

text \<open>
  C9 (as stated, false). An overlay over an empty delegate reads the key \<open>k\<close>, which is
  absent everywhere and was never written: \<open>keys()\<close> reports it.
\<close>

theorem getAllKeys_reports_key_read_absent:
  "getAllKeys (foldl perform (MemoryStorage [] [] (Some (MemoryStorage [] [] None)))
      [GetItem ''k'' :: jsval storageOp]) = [''k'']
   \<and> getAllKeys (MemoryStorage [] [] None :: jsval MemoryStorage) = []
   \<and> fst (getItem (MemoryStorage [] [] (Some (MemoryStorage [] [] None)) :: jsval MemoryStorage)
        ''k'') = None"
  by (simp add: uniq_def)

text \<open>
  C9 (amended). After any sequence of reads, writes and removals on a new overlay,
  \<open>keys()\<close> returns exactly the keys of the delegate, as it then is, together with the keys
  the overlay holds in its state: every key it has written or read (found or not) and not
  removed since.
\<close>

theorem getAllKeys_delegate_and_held:
  "\<exists>d'. fallback (foldl perform (MemoryStorage [] [] (Some d)) ops) = Some d'
     \<and> set (getAllKeys (foldl perform (MemoryStorage [] [] (Some d)) ops))
        = set (getAllKeys d') \<union> foldl held {} ops"
proof -
  obtain st' pk' d'
    where 1: "foldl perform (MemoryStorage [] [] (Some d)) ops = MemoryStorage st' pk' (Some d')"
      and 2: "fst ` set st' = foldl held {} ops"
    using performAll_overlay[of "[]" "[]" d ops] by auto
  show ?thesis using 1 2 by simp
qed

section \<open>Sync: what a failed or forced sync leaves in the store\<close>

text \<open>
  C2 (the code departs from the claim). Two tables, both with a meta record of an earlier
  sync at \<open>T0\<close>. The first merges, the second fails in \<open>isItemDeleted\<close>. The merge
  function writes the meta record through \<open>this.storage\<close> and not through the transaction,
  so after \<open>sync\<close> has propagated the error the first table's \<open>lastSync\<close> is \<open>T1\<close>.
\<close>

theorem sync_failure_keeps_meta_of_merged_table:
  "sync ''T1'' [exampleTable ''a'' [] False [], throwingTable ''b'' [[(''id'', Str ''1'')]]]
     (MemoryStorage [(''a/meta'', Some (Meta (Some ''T0''))),
                     (''b/meta'', Some (Meta (Some ''T0'')))] [] None)
   = (MemoryStorage [(''a/meta'', Some (Meta (Some ''T1''))),
                     (''b/meta'', Some (Meta (Some ''T0'')))] [] None,
      Some (Error ''boom''))"
  by code_simp

text \<open>A table with \<open>forceSync\<close> is always asked for everything: \<open>since\<close> is \<open>null\<close>.\<close>

lemma sinceOf_forceSync: "forceSync t \<Longrightarrow> sinceOf t lastSync = None"
  by (simp add: sinceOf_def split: option.splits)

lemma syncTable_forceSync:
  "forceSync t \<Longrightarrow>
   fst (syncTable t s) = (case getSince t None of Inl e \<Rightarrow> Inl e | Inr data \<Rightarrow> Inr (t, data))"
  by (simp add: syncTable_def mergeTable_def sinceOf_forceSync split: prod.splits sum.splits)

text \<open>
  C6 (the code departs from the claim). The table \<open>comments\<close> is synced with \<open>forceSync\<close>;
  the table \<open>comments2\<close> has a stored row. \<open>clearTable\<close> removes every key that starts with
  the text \<open>comments\<close>, so the row, the snapshot and the meta record of \<open>comments2\<close> are gone
  after the sync.
\<close>

theorem forced_sync_clears_table_with_longer_name:
  "sync ''T1'' [exampleTable ''comments'' [] True [], exampleTable ''comments2'' [] False []]
     (MemoryStorage [(''comments/meta'', Some (Meta (Some ''T0''))),
                     (''comments2/meta'', Some (Meta (Some ''T0''))),
                     (''comments2/rows/1'', Some (Row [(''id'', Str ''1'')])),
                     (''comments2/rows/1/indexes'', Some (IndexValue []))] [] None)
   = (MemoryStorage [] [] None, None)"
  by code_simp

section \<open>Queries\<close>

text \<open>
  C4 (the code departs from the claim). A row with the id \<open>%41\<close> is written to a table
  with an index on the column \<open>hash\<close>. The index group holds the id as it is; the query
  decodes it to \<open>A\<close>, finds no row under that id and returns nothing, although the stored
  row has the value asked for.
\<close>

theorem index_query_misses_percent_id:
  "patch (exampleTable ''t'' [(''h'', Column ''hash'')] False [])
      [(''id'', Str ''%41''), (''hash'', Str ''x'')] (MemoryStorage [] [] None)
    = (MemoryStorage
        [(''t/rows/%2541'', Some (Row [(''id'', Str ''%41''), (''hash'', Str ''x'')])),
         (''t/rows/%2541/indexes'', Some (IndexValue [(''h'', Str ''x'')])),
         (''t/indexes/h'', Some (TableIndex [Group (Str ''x'') [Str ''%41'']]))] [] None, None)
   \<and> queryTable
        (MemoryStorage
          [(''t/rows/%2541'', Some (Row [(''id'', Str ''%41''), (''hash'', Str ''x'')])),
           (''t/rows/%2541/indexes'', Some (IndexValue [(''h'', Str ''x'')])),
           (''t/indexes/h'', Some (TableIndex [Group (Str ''x'') [Str ''%41'']]))] [] None)
        (exampleTable ''t'' [(''h'', Column ''hash'')] False [])
        [(''hash'', Lit (Str ''x''))] (None, None)
      = Inr ([], [''t/indexes/h''])"
  by code_simp

section \<open>What a storage shows after a read, a write and a removal\<close>

lemma view_getItem [simp]: "view (snd (getItem s k)) k' = view s k'"
proof (induction s k rule: getItem.induct)
  case (1 st pk key)
  then show ?case by (simp add: view_def)
next
  case (2 st pk fb key)
  show ?case
  proof (cases "map_of st key")
    case None
    obtain v fb' where g: "getItem fb key = (v, fb')" by (cases "getItem fb key")
    have ih: "view fb' k' = view fb k'" using 2 None g by simp
    show ?thesis
    proof (cases "k' = key")
      case True
      then show ?thesis using None g by (simp add: view_def AList.update_conv')
    next
      case False
      then show ?thesis using None g ih
        by (auto simp: view_def AList.update_conv' split: option.splits prod.splits)
    qed
  next
    case (Some a)
    then show ?thesis by (simp add: view_def)
  qed
qed

lemma view_setItem [simp]: "view (setItem s k v) k' = (if k' = k then v else view s k')"
proof (cases s)
  case (MemoryStorage st pk fb)
  then show ?thesis
    by (cases fb) (auto simp: view_def AList.update_conv' split: option.splits prod.splits)
qed

lemma view_removeItem [simp]: "view (removeItem s k) k' = (if k' = k then None else view s k')"
proof (induction s k rule: removeItem.induct)
  case (1 st pk key)
  then show ?case by (simp add: view_def AList.delete_conv')
next
  case (2 st pk fb key)
  then show ?case
    by (auto simp: view_def AList.delete_conv' split: option.splits prod.splits)
qed

section \<open>The fetch phase of sync\<close>

lemma view_getTableMeta:
  "view (snd (getTableMeta t s)) k =
     (if k = storageKey_tableMeta (key t) \<and> view s k = None then Some (Meta None) else view s k)"
proof -
  obtain v s' where g: "getItem s (storageKey_tableMeta (key t)) = (v, s')"
    by (cases "getItem s (storageKey_tableMeta (key t))")
  have v: "view s (storageKey_tableMeta (key t)) = v" using g by (simp add: view_def)
  have s': "view s' k = view s k" using view_getItem[of s "storageKey_tableMeta (key t)" k] g by simp
  show ?thesis using g v s'
    by (auto simp: getTableMeta_def setTableMeta_def split: option.splits stored.splits)
qed

lemma view_syncTable:
  "view (snd (syncTable t s)) k =
     (if k = storageKey_tableMeta (key t) \<and> view s k = None then Some (Meta None) else view s k)"
proof -
  obtain m s1 where 1: "getTableMeta t s = (m, s1)" by (cases "getTableMeta t s")
  obtain m2 s2 where 2: "getTableMeta t s1 = (m2, s2)" by (cases "getTableMeta t s1")
  have v1: "view s1 k = (if k = storageKey_tableMeta (key t) \<and> view s k = None then Some (Meta None) else view s k)"
    using view_getTableMeta[of t s k] 1 by simp
  have v2: "view s2 k = (if k = storageKey_tableMeta (key t) \<and> view s1 k = None then Some (Meta None) else view s1 k)"
    using view_getTableMeta[of t s1 k] 2 by simp
  have "snd (syncTable t s) = s1 \<or> snd (syncTable t s) = s2"
    using 1 2 by (auto simp: syncTable_def mergeTable_def split: sum.splits)
  then show ?thesis using v1 v2 by auto
qed

text \<open>
  C3 (as stated, false). On a new store the fetch phase for one table stores the table's
  meta record.
\<close>

theorem fetch_phase_writes_meta_on_new_store:
  "snd (fetchAll [exampleTable ''a'' [] False []] (MemoryStorage [] [] None))
   = MemoryStorage [(''a/meta'', Some (Meta None))] [] None"
  by code_simp

text \<open>
  C3 (amended). After the fetch phase every key shows what it showed before \<open>sync\<close> was
  called, except the meta key of a registered table that showed nothing: it shows a meta
  record with \<open>lastSync: null\<close>. So when every table has a meta record the fetch phase
  changes nothing the store shows.
\<close>

theorem fetch_phase_writes_missing_meta_only:
  "fst (getItem (snd (fetchAll ts s)) k) =
     (if k \<in> (\<lambda>t. storageKey_tableMeta (key t)) ` set ts \<and> fst (getItem s k) = None
      then Some (Meta None) else fst (getItem s k))"
proof (induction ts arbitrary: s)
  case Nil
  then show ?case by simp
next
  case (Cons t ts)
  obtain r s1 where 1: "syncTable t s = (r, s1)" by (cases "syncTable t s")
  obtain rs s2 where 2: "fetchAll ts s1 = (rs, s2)" by (cases "fetchAll ts s1")
  have a: "snd (fetchAll (t # ts) s) = s2" using 1 2 by simp
  have v1: "view s1 k = (if k = storageKey_tableMeta (key t) \<and> view s k = None then Some (Meta None) else view s k)"
    using view_syncTable[of t s k] 1 by simp
  have v2: "view s2 k = (if k \<in> (\<lambda>t. storageKey_tableMeta (key t)) ` set ts \<and> view s1 k = None
      then Some (Meta None) else view s1 k)"
    using Cons.IH[of s1] 2 by (simp add: view_def)
  show ?case unfolding a using v1 v2 by (auto simp: view_def)
qed

section \<open>The key path in a query\<close>

lemma factoryLoop_narrows:
  "factoryLoop s t flt ixs (Some cs, u) = Inr (c', u') \<Longrightarrow> set cs \<subseteq> A
     \<Longrightarrow> \<exists>cs'. c' = Some cs' \<and> set cs' \<subseteq> A"
proof (induction ixs arbitrary: cs u)
  case Nil
  then show ?case by auto
next
  case (Cons ix ixs)
  obtain n d where ix: "ix = (n, d)" by (cases ix)
  show ?case
  proof (cases d)
    case (Column c)
    then show ?thesis using Cons ix by simp
  next
    case (Factory f)
    have sub: "\<And>g. set (filter (includesId g) cs) \<subseteq> A" using Cons.prems(2) by auto
    show ?thesis using Cons.prems ix Factory sub
      by (auto simp: Let_def narrow_def split: if_splits option.splits sum.splits
               dest!: Cons.IH)
  qed
qed

lemma columnLoop_narrows:
  "columnLoop s t flt (Some cs, u, sf) = Inr (c', u', sf') \<Longrightarrow> set cs \<subseteq> A
     \<Longrightarrow> \<exists>cs'. c' = Some cs' \<and> set cs' \<subseteq> A"
proof (induction flt arbitrary: cs u sf)
  case Nil
  then show ?case by auto
next
  case (Cons e flt)
  obtain n v where e: "e = (n, v)" by (cases e)
  have sub: "\<And>g. set (filter (includesId g) cs) \<subseteq> A" using Cons.prems(2) by auto
  show ?case using Cons.prems e sub
    by (auto simp: Let_def narrow_def split: if_splits option.splits sum.splits
             dest!: Cons.IH)
qed

lemma collect_rows:
  "set (fst (collect fetch match lim is off res v)) \<subseteq> set res \<union> {r. \<exists>i\<in>set is. fetch i = Some r}"
proof (induction "is" arbitrary: off res v)
  case Nil
  then show ?case by simp
next
  case (Cons i "is")
  have ih: "\<And>off res v. set (fst (collect fetch match lim is off res v)) \<subseteq> set res \<union> {r. \<exists>i\<in>set is. fetch i = Some r}"
    using Cons.IH by blast
  show ?case
  proof (cases "fetch i")
    case None
    then show ?thesis using ih[of off res "Suc v"] by auto
  next
    case (Some r)
    show ?thesis using Some ih[of off res "Suc v"] ih[of "map_option (\<lambda>n. n - 1) off" res "Suc v"]
        ih[of off "res @ [r]" "Suc v"]
      by (auto split: if_splits)
  qed
qed

text \<open>
  C7 (as stated, false). A falsy literal at the key path (the empty string, \<open>0\<close>,
  \<open>false\<close>) seeds no candidate.
\<close>

theorem falsy_key_path_literal_not_seeded:
  "seedIds (exampleTable ''a'' [] False []) [(''id'', Lit (Str []))] = None
   \<and> seedIds (exampleTable ''a'' [] False []) [(''id'', Lit (Num 0))] = None
   \<and> seedIds (exampleTable ''a'' [] False []) [(''id'', Lit (Bool False))] = None"
  by (simp add: seedIds_def exampleTable_def)

text \<open>
  C7 (amended). When the filter gives a literal at the key path, the candidates are seeded
  with exactly that one id if the literal is truthy, and not seeded if it is falsy. With a
  truthy literal every row the query returns is the row stored under that id. A literal is
  never applied as a predicate: where the entry is looked up in an index or checked in the
  scan, it is compared by strict equality.
\<close>

theorem key_path_seed:
  assumes "map_of flt (keyPath t) = Some (Lit v)"
  shows "seedIds t flt = (if truthy v then Some [Lit v] else None)
     \<and> (truthy v \<longrightarrow> (\<forall>rows used. queryTable s t flt p = Inr (rows, used)
            \<longrightarrow> set rows \<subseteq> set_option (fetchRow s t (Lit v))))
     \<and> findGroup (Lit v) index = find (\<lambda>g. strictEq (gvalue g) v) index
     \<and> matches [(keyPath t, Lit v)] r = strictEq (attr r (keyPath t)) v"
proof -
  have eq: "findGroup (Lit v) index = find (\<lambda>g. strictEq (gvalue g) v) index"
    "matches [(keyPath t, Lit v)] r = strictEq (attr r (keyPath t)) v"
    by (simp_all add: findGroup_def matches_def)
  have seed: "seedIds t flt = (if truthy v then Some [Lit v] else None)"
    using assms by (simp add: seedIds_def)
  have "set rows \<subseteq> set_option (fetchRow s t (Lit v))"
    if tr: "truthy v" and q: "queryTable s t flt p = Inr (rows, used)" for rows used
  proof -
    obtain c1 u1 where f: "factoryLoop s t flt (indexes t) (Some [Lit v], []) = Inr (c1, u1)"
      using q seed tr by (auto simp: queryTable_def split: sum.splits)
    obtain cs1 where c1: "c1 = Some cs1" "set cs1 \<subseteq> {Lit v}"
      using factoryLoop_narrows[OF f, of "{Lit v}"] by auto
    obtain c2 sf where c: "columnLoop s t flt (Some cs1, u1, []) = Inr (c2, used, sf)"
        and r: "rows = fst (collect (fetchRow s t) (matches sf) (fst p)
                 (case c2 of Some cs \<Rightarrow> cs | None \<Rightarrow> []) (snd p) [] 0)" and "c2 \<noteq> None"
      using q seed tr f c1 columnLoop_narrows[of s t flt cs1 u1 "[]" _ _ _ "{Lit v}"]
      by (fastforce simp: queryTable_def split: sum.splits option.splits)
    obtain cs2 where c2: "c2 = Some cs2" "set cs2 \<subseteq> {Lit v}"
      using columnLoop_narrows[OF c, of "{Lit v}"] c1 by auto
    have "set rows \<subseteq> {r. \<exists>i\<in>set cs2. fetchRow s t i = Some r}"
      using collect_rows[of "fetchRow s t" "matches sf" "fst p" cs2 "snd p" "[]" 0] r c2 by simp
    then show ?thesis using c2 by auto
  qed
  then show ?thesis using seed eq by blast
qed

theorem key_path_seed_witness:
  "map_of [(''id'', Lit (Str ''2''))] (keyPath (exampleTable ''a'' [] False []))
     = Some (Lit (Str ''2''))
   \<and> truthy (Str ''2'')
   \<and> seedIds (exampleTable ''a'' [] False []) [(''id'', Lit (Str ''2''))] = Some [Lit (Str ''2'')]
   \<and> queryTable
        (MemoryStorage [(''a/rows/1'', Some (Row [(''id'', Str ''1'')])),
                        (''a/rows/2'', Some (Row [(''id'', Str ''2'')]))] [] None)
        (exampleTable ''a'' [] False []) [(''id'', Lit (Str ''2''))] (None, None)
      = Inr ([[(''id'', Str ''2'')]], [])
   \<and> set [[(''id'', Str ''2'')]]
      \<subseteq> set_option (fetchRow
          (MemoryStorage [(''a/rows/1'', Some (Row [(''id'', Str ''1'')])),
                          (''a/rows/2'', Some (Row [(''id'', Str ''2'')]))] [] None)
          (exampleTable ''a'' [] False []) (Lit (Str ''2'')))"
proof -
  have h: "map_of [(''id'', Lit (Str ''2''))] (keyPath (exampleTable ''a'' [] False []))
     = Some (Lit (Str ''2''))"
    by (simp add: exampleTable_def)
  have q: "queryTable
        (MemoryStorage [(''a/rows/1'', Some (Row [(''id'', Str ''1'')])),
                        (''a/rows/2'', Some (Row [(''id'', Str ''2'')]))] [] None)
        (exampleTable ''a'' [] False []) [(''id'', Lit (Str ''2''))] (None, None)
      = Inr ([[(''id'', Str ''2'')]], [])"
    by code_simp
  show ?thesis
    using key_path_seed[OF h,
        of "MemoryStorage [(''a/rows/1'', Some (Row [(''id'', Str ''1'')])),
                           (''a/rows/2'', Some (Row [(''id'', Str ''2'')]))] [] None"
           "(None, None)"] h q
    by simp
qed

section \<open>Pagination\<close>

lemma collect_unlimited:
  assumes "lim = None \<or> lim = Some 0" "off = None \<or> (\<exists>k\<ge>0. off = Some k)"
  shows "fst (collect fetch match lim is off res v)
         = res @ drop (offsetOf off) (matchingRows fetch match is)"
  using assms
proof (induction "is" arbitrary: off res v)
  case Nil
  then show ?case by simp
next
  case (Cons i "is")
  show ?case
  proof (cases "fetch i")
    case None
    then show ?thesis using Cons by simp
  next
    case (Some r)
    show ?thesis
    proof (cases "match r")
      case False
      then show ?thesis using Some Cons by simp
    next
      case True
      show ?thesis
      proof (cases "off \<noteq> None \<and> off \<noteq> Some 0")
        case skip: True
        then obtain k where k: "off = Some k" "0 < k" using Cons.prems(2) by (auto simp: less_le)
        have "fst (collect fetch match lim is (Some (k - 1)) res (Suc v))
              = res @ drop (offsetOf (Some (k - 1))) (matchingRows fetch match is)"
          using Cons.IH[of "Some (k - 1)" res "Suc v"] Cons.prems(1) k by simp
        moreover have "offsetOf (Some k) = Suc (offsetOf (Some (k - 1)))"
          using k by (simp add: offsetOf_def)
        ultimately show ?thesis using Some True k by simp
      next
        case noskip: False
        then have o: "offsetOf off = 0" using Cons.prems(2) by (auto simp: offsetOf_def)
        have "fst (collect fetch match lim is off (res @ [r]) (Suc v))
              = (res @ [r]) @ drop (offsetOf off) (matchingRows fetch match is)"
          using Cons.IH[of off "res @ [r]" "Suc v"] Cons.prems by simp
        then show ?thesis using Some True noskip o Cons.prems(1) by auto
      qed
    qed
  qed
qed

lemma collect_limited:
  assumes "1 \<le> n" "length res < nat n" "off = None \<or> (\<exists>k\<ge>0. off = Some k)"
  shows "fst (collect fetch match (Some n) is off res v)
         = res @ take (nat n - length res) (drop (offsetOf off) (matchingRows fetch match is))"
  using assms
proof (induction "is" arbitrary: off res v)
  case Nil
  then show ?case by simp
next
  case (Cons i "is")
  show ?case
  proof (cases "fetch i")
    case None
    then show ?thesis using Cons by simp
  next
    case (Some r)
    show ?thesis
    proof (cases "match r")
      case False
      then show ?thesis using Some Cons by simp
    next
      case True
      show ?thesis
      proof (cases "off \<noteq> None \<and> off \<noteq> Some 0")
        case skip: True
        then obtain k where k: "off = Some k" "0 < k" using Cons.prems(3) by (auto simp: less_le)
        have "fst (collect fetch match (Some n) is (Some (k - 1)) res (Suc v))
              = res @ take (nat n - length res) (drop (offsetOf (Some (k - 1))) (matchingRows fetch match is))"
          using Cons.IH[of res "Some (k - 1)" "Suc v"] Cons.prems k by simp
        moreover have "offsetOf (Some k) = Suc (offsetOf (Some (k - 1)))"
          using k by (simp add: offsetOf_def)
        ultimately show ?thesis using Some True k by simp
      next
        case noskip: False
        then have o: "offsetOf off = 0" using Cons.prems(3) by (auto simp: offsetOf_def)
        show ?thesis
        proof (cases "n \<le> int (length res) + 1")
          case full: True
          then have "nat n - length res = 1" using Cons.prems(1,2) by linarith
          then show ?thesis using Some True noskip o full Cons.prems(1) by auto
        next
          case more: False
          then have l: "length (res @ [r]) < nat n" by simp
          have "fst (collect fetch match (Some n) is off (res @ [r]) (Suc v))
              = (res @ [r]) @ take (nat n - length (res @ [r])) (drop (offsetOf off) (matchingRows fetch match is))"
            using Cons.IH[OF Cons.prems(1) l Cons.prems(3)] by simp
          moreover have "nat n - length res = Suc (nat n - length (res @ [r]))"
            using l by simp
          ultimately show ?thesis using Some True noskip o more Cons.prems(1) by auto
        qed
      qed
    qed
  qed
qed

lemma collect_visited: "snd (collect fetch match lim is off res v) \<le> v + length is"
proof (induction "is" arbitrary: off res v)
  case Nil
  then show ?case by simp
next
  case (Cons i "is")
  have 1: "\<And>off res. snd (collect fetch match lim is off res (Suc v)) \<le> v + length (i # is)"
    using Cons.IH[of _ _ "Suc v"] by simp
  show ?case using 1 by (simp split: option.splits)
qed

lemma matchingRows_append: "matchingRows fetch match (xs @ ys) = matchingRows fetch match xs @ matchingRows fetch match ys"
  by (induction xs) (auto split: option.splits)

lemma collect_stops:
  assumes "1 \<le> n" "length res < nat n" "off = None \<or> (\<exists>k\<ge>0. off = Some k)"
    "nat n \<le> length res + (length (matchingRows fetch match pre) - offsetOf off)"
  shows "collect fetch match (Some n) (pre @ rest) off res v = collect fetch match (Some n) pre off res v"
  using assms
proof (induction pre arbitrary: off res v)
  case Nil
  then show ?case by simp
next
  case (Cons i pre)
  show ?case
  proof (cases "fetch i")
    case None
    then show ?thesis using Cons.IH[OF Cons.prems(1,2,3)] Cons.prems(4) by simp
  next
    case (Some r)
    show ?thesis
    proof (cases "match r")
      case False
      then show ?thesis using Some Cons.IH[OF Cons.prems(1,2,3)] Cons.prems(4) by simp
    next
      case True
      show ?thesis
      proof (cases "off \<noteq> None \<and> off \<noteq> Some 0")
        case skip: True
        then obtain k where k: "off = Some k" "0 < k" using Cons.prems(3) by (auto simp: less_le)
        have o: "offsetOf (Some k) = Suc (offsetOf (Some (k - 1)))"
          using k by (simp add: offsetOf_def)
        have "collect fetch match (Some n) (pre @ rest) (Some (k - 1)) res (Suc v)
             = collect fetch match (Some n) pre (Some (k - 1)) res (Suc v)"
          using Cons.IH[of res "Some (k - 1)" "Suc v"] Cons.prems k o Some True by simp
        then show ?thesis using Some True k by simp
      next
        case noskip: False
        then have o: "offsetOf off = 0" using Cons.prems(3) by (auto simp: offsetOf_def)
        show ?thesis
        proof (cases "n \<le> int (length res) + 1")
          case full: True
          then show ?thesis using Some True noskip Cons.prems(1) by auto
        next
          case more: False
          then have l: "length (res @ [r]) < nat n" by simp
          have "collect fetch match (Some n) (pre @ rest) off (res @ [r]) (Suc v)
              = collect fetch match (Some n) pre off (res @ [r]) (Suc v)"
            using Cons.IH[OF Cons.prems(1) l Cons.prems(3)] Cons.prems(4) o Some True by simp
          then show ?thesis using Some True noskip more Cons.prems(1) by auto
        qed
      qed
    qed
  qed
qed

text \<open>The candidates and the scan filters of \<open>queryTable\<close> do not depend on the
  pagination, so the query with a limit and an offset returns a window of the rows the
  query without them returns.\<close>

lemma queryTable_pagination:
  assumes "queryTable s t flt (None, None) = Inr (rows, used)" and "0 \<le> k" and "1 \<le> n"
  shows "queryTable s t flt (None, Some k) = Inr (drop (nat k) rows, used)
     \<and> queryTable s t flt (Some n, None) = Inr (take (nat n) rows, used)
     \<and> queryTable s t flt (Some n, Some k) = Inr (take (nat n) (drop (nat k) rows), used)
     \<and> queryTable s t flt (Some 0, Some k) = Inr (drop (nat k) rows, used)"
proof -
  have off: "Some k = None \<or> (\<exists>j\<ge>0. Some k = Some j)" using assms(2) by simp
  have o: "offsetOf (Some k) = nat k" "offsetOf None = 0" by (simp_all add: offsetOf_def)
  have 0: "fst (collect fetch match None is None [] 0) = matchingRows fetch match is"
    for fetch match "is"
    using collect_unlimited[of None None fetch match "is" "[]" 0] o by simp
  have 1: "fst (collect fetch match None is (Some k) [] 0)
           = drop (nat k) (matchingRows fetch match is)" for fetch match "is"
    using collect_unlimited[of None "Some k" fetch match "is" "[]" 0] off o by simp
  have 2: "fst (collect fetch match (Some n) is None [] 0)
           = take (nat n) (matchingRows fetch match is)" for fetch match "is"
    using collect_limited[of n "[]" None fetch match "is" 0] assms(3) o by simp
  have 3: "fst (collect fetch match (Some n) is (Some k) [] 0)
           = take (nat n) (drop (nat k) (matchingRows fetch match is))" for fetch match "is"
    using collect_limited[of n "[]" "Some k" fetch match "is" 0] assms(2,3) off o by simp
  have 4: "fst (collect fetch match (Some 0) is (Some k) [] 0)
           = drop (nat k) (matchingRows fetch match is)" for fetch match "is"
    using collect_unlimited[of "Some 0" "Some k" fetch match "is" "[]" 0] off o by simp
  show ?thesis
    using assms(1) by (auto simp: queryTable_def 0 1 2 3 4 split: sum.splits option.splits)
qed

text \<open>
  C8 (as stated, false). With \<open>limit = 0\<close> the query returns every match: two rows here.
\<close>

theorem limit_zero_returns_all:
  "queryTable
     (MemoryStorage [(''a/rows/1'', Some (Row [(''id'', Str ''1'')])),
                     (''a/rows/2'', Some (Row [(''id'', Str ''2'')]))] [] None)
     (exampleTable ''a'' [] False []) [] (Some 0, None)
   = Inr ([[(''id'', Str ''1'')], [(''id'', Str ''2'')]], [])"
  by code_simp

text \<open>
  C8 (amended). Over the matching rows of the candidates, in order: an offset \<open>k \<ge> 0\<close>
  returns the matches from position \<open>k\<close> on; a limit \<open>n \<ge> 1\<close> returns the first \<open>n\<close>
  matches at most; both return exactly the matches at the positions \<open>k\<close> to \<open>k + n - 1\<close>;
  the limit \<open>0\<close> is no limit. With a limit the loop stops at the candidate that fills the
  result and reads no candidate after it; it never visits more candidates than there are.
\<close>

theorem collect_pagination:
  assumes "0 \<le> k" and "1 \<le> n"
  shows "fst (collect fetch match None is (Some k) [] 0)
           = drop (nat k) (matchingRows fetch match is)
     \<and> fst (collect fetch match (Some n) is None [] 0)
           = take (nat n) (matchingRows fetch match is)
     \<and> fst (collect fetch match (Some n) is (Some k) [] 0)
           = take (nat n) (drop (nat k) (matchingRows fetch match is))
     \<and> fst (collect fetch match (Some 0) is (Some k) [] 0)
           = drop (nat k) (matchingRows fetch match is)
     \<and> (nat k + nat n \<le> length (matchingRows fetch match pre)
          \<longrightarrow> collect fetch match (Some n) (pre @ rest) (Some k) [] 0
               = collect fetch match (Some n) pre (Some k) [] 0)
     \<and> snd (collect fetch match (Some n) is (Some k) [] 0) \<le> length is"
proof -
  have off: "Some k = None \<or> (\<exists>j\<ge>0. Some k = Some j)" using assms(1) by simp
  have o: "offsetOf (Some k) = nat k" "offsetOf None = 0" by (simp_all add: offsetOf_def)
  have 1: "fst (collect fetch match None is (Some k) [] 0)
           = drop (nat k) (matchingRows fetch match is)"
    using collect_unlimited[of None "Some k" fetch match "is" "[]" 0] off o by simp
  have 2: "fst (collect fetch match (Some n) is None [] 0)
           = take (nat n) (matchingRows fetch match is)"
    using collect_limited[of n "[]" None fetch match "is" 0] assms(2) o by simp
  have 3: "fst (collect fetch match (Some n) is (Some k) [] 0)
           = take (nat n) (drop (nat k) (matchingRows fetch match is))"
    using collect_limited[of n "[]" "Some k" fetch match "is" 0] assms off o by simp
  have 4: "fst (collect fetch match (Some 0) is (Some k) [] 0)
           = drop (nat k) (matchingRows fetch match is)"
    using collect_unlimited[of "Some 0" "Some k" fetch match "is" "[]" 0] off o by simp
  have 5: "collect fetch match (Some n) (pre @ rest) (Some k) [] 0
               = collect fetch match (Some n) pre (Some k) [] 0"
    if "nat k + nat n \<le> length (matchingRows fetch match pre)"
    using collect_stops[of n "[]" "Some k" fetch match pre rest 0] assms off o that by simp
  have 6: "snd (collect fetch match (Some n) is (Some k) [] 0) \<le> length is"
    using collect_visited[of fetch match "Some n" "is" "Some k" "[]" 0] by simp
  show ?thesis using 1 2 3 4 5 6 by blast
qed

theorem collect_pagination_witness:
  "(0::int) \<le> 1 \<and> (1::int) \<le> 1
   \<and> fst (collect (\<lambda>i. case i of Lit v \<Rightarrow> Some [(''id'', v)] | Pred p \<Rightarrow> None) (\<lambda>r. True)
           (Some 1) [Lit (Str ''a''), Lit (Str ''b''), Lit (Str ''c'')] (Some 1) [] 0)
      = [[(''id'', Str ''b'')]]
   \<and> collect (\<lambda>i. case i of Lit v \<Rightarrow> Some [(''id'', v)] | Pred p \<Rightarrow> None) (\<lambda>r. True)
           (Some 1) ([Lit (Str ''a''), Lit (Str ''b'')] @ [Lit (Str ''c'')]) (Some 1) [] 0
      = ([[(''id'', Str ''b'')]], 2)"
proof -
  have h: "(0::int) \<le> 1" "(1::int) \<le> 1" by simp_all
  show ?thesis
    using collect_pagination[OF h,
        of "\<lambda>i. case i of Lit v \<Rightarrow> Some [(''id'', v)] | Pred p \<Rightarrow> None" "\<lambda>r. True"
           "[Lit (Str ''a''), Lit (Str ''b''), Lit (Str ''c'')]"
           "[Lit (Str ''a''), Lit (Str ''b'')]" "[Lit (Str ''c'')]"]
    by simp
qed

section \<open>The key scheme\<close>

text \<open>The encoding of a component is injective and has no separator in it, so the keys of
  rows, snapshots and indexes of one table never coincide.\<close>

lemma digit_less: "n < 16 \<Longrightarrow> digit n \<in> set ''0123456789ABCDEF''"
  unfolding digit_def by (rule nth_mem) simp

lemma digit_inj: "a < 16 \<Longrightarrow> b < 16 \<Longrightarrow> digit a = digit b \<Longrightarrow> a = b"
proof -
  assume a: "a < 16" and b: "b < 16" and e: "digit a = digit b"
  have d: "distinct ''0123456789ABCDEF''" by simp
  have "length ''0123456789ABCDEF'' = 16" by simp
  then show "a = b" using nth_eq_iff_index_eq[OF d, of a b] a b e by (simp add: digit_def)
qed

lemma unreserved_not_special: "unreserved c \<Longrightarrow> c \<noteq> CHR ''%'' \<and> c \<noteq> CHR ''/''"
  by (auto simp: unreserved_def)

lemma digit_not_slash: "n < 16 \<Longrightarrow> digit n \<noteq> CHR ''/''"
  using digit_less[of n] by auto

lemma slash_notin_encByte: "CHR ''/'' \<notin> set (encByte c)"
proof -
  have 1: "(of_char c :: nat) div 16 < 16"
    using nat_of_char_less_256[of c] by arith
  have 2: "(of_char c :: nat) mod 16 < 16" by simp
  show ?thesis
    using unreserved_not_special[of c] digit_not_slash[OF 1] digit_not_slash[OF 2]
    by (auto simp: encByte_def)
qed

lemma slash_notin_enc: "CHR ''/'' \<notin> set (encodeURIComponent s)"
  by (induction s) (auto simp: encodeURIComponent_def slash_notin_encByte)

lemma encByte_inj: "encByte c @ xs = encByte d @ ys \<Longrightarrow> c = d \<and> xs = ys"
proof -
  assume e: "encByte c @ xs = encByte d @ ys"
  have c1: "(of_char c :: nat) div 16 < 16" using nat_of_char_less_256[of c] by arith
  have d1: "(of_char d :: nat) div 16 < 16" using nat_of_char_less_256[of d] by arith
  have c2: "(of_char c :: nat) mod 16 < 16" and d2: "(of_char d :: nat) mod 16 < 16" by simp_all
  show ?thesis
  proof (cases "unreserved c")
    case uc: True
    show ?thesis
    proof (cases "unreserved d")
      case True
      then show ?thesis using uc e by (simp add: encByte_def)
    next
      case False
      then show ?thesis using uc e unreserved_not_special[of c] by (simp add: encByte_def)
    qed
  next
    case nc: False
    show ?thesis
    proof (cases "unreserved d")
      case True
      then show ?thesis using nc e unreserved_not_special[of d] by (auto simp: encByte_def)
    next
      case False
      then have "digit ((of_char c :: nat) div 16) = digit ((of_char d :: nat) div 16)"
        and "digit ((of_char c :: nat) mod 16) = digit ((of_char d :: nat) mod 16)"
        and x: "xs = ys"
        using nc e by (simp_all add: encByte_def)
      then have "(of_char c :: nat) div 16 = of_char d div 16" "(of_char c :: nat) mod 16 = of_char d mod 16"
        using digit_inj c1 d1 c2 d2 by blast+
      then have "(of_char c :: nat) = of_char d"
        by (metis div_mult_mod_eq)
      then show ?thesis using x by simp
    qed
  qed
qed

lemma enc_inj: "encodeURIComponent a = encodeURIComponent b \<Longrightarrow> a = b"
proof (induction a arbitrary: b)
  case Nil
  then show ?case
  proof (cases b)
    case (Cons d ds)
    then have "encByte d = []" using Nil by (simp add: encodeURIComponent_def)
    then show ?thesis by (simp add: encByte_def split: if_splits)
  qed simp
next
  case (Cons c cs)
  show ?case
  proof (cases b)
    case Nil
    then have "encByte c = []" using Cons.prems by (simp add: encodeURIComponent_def)
    then show ?thesis by (simp add: encByte_def split: if_splits)
  next
    case (Cons d ds)
    then have "encByte c @ encodeURIComponent cs = encByte d @ encodeURIComponent ds"
      using Cons.prems by (simp add: encodeURIComponent_def)
    then have "c = d" "encodeURIComponent cs = encodeURIComponent ds"
      using encByte_inj by blast+
    then show ?thesis using Cons.IH Cons by simp
  qed
qed

lemma index_key_inj [simp]: "storageKey_index k n = storageKey_index k n' \<longleftrightarrow> n = n'"
  by (auto simp: storageKey_index_def dest: enc_inj)

lemma rowIndex_key_inj [simp]: "storageKey_rowIndex k i = storageKey_rowIndex k j \<longleftrightarrow> i = j"
  by (auto simp: storageKey_rowIndex_def dest: enc_inj)

lemma row_key_inj [simp]: "storageKey_row k i = storageKey_row k j \<longleftrightarrow> i = j"
  by (auto simp: storageKey_row_def dest: enc_inj)

lemma index_key_not_row [simp]:
  "storageKey_index k n \<noteq> storageKey_rowIndex k i" "storageKey_index k n \<noteq> storageKey_row k i"
  "storageKey_rowIndex k i \<noteq> storageKey_index k n" "storageKey_row k i \<noteq> storageKey_index k n"
  by (simp_all add: storageKey_index_def storageKey_rowIndex_def storageKey_row_def storageKey_rows_def)

lemma row_key_not_rowIndex [simp]:
  "storageKey_row k i \<noteq> storageKey_rowIndex k j" "storageKey_rowIndex k j \<noteq> storageKey_row k i"
proof -
  have "encodeURIComponent i \<noteq> encodeURIComponent j @ ''/indexes''"
    using slash_notin_enc[of i] by (metis in_set_conv_decomp append_Cons)
  then show "storageKey_row k i \<noteq> storageKey_rowIndex k j" "storageKey_rowIndex k j \<noteq> storageKey_row k i"
    by (auto simp: storageKey_rowIndex_def storageKey_row_def storageKey_rows_def)
qed

section \<open>An overlay and its parent\<close>

lemma view_overlay:
  "view (MemoryStorage st pk (Some p)) k = (case map_of st k of Some v \<Rightarrow> v | None \<Rightarrow> view p k)"
  by (simp add: view_def split: option.splits prod.splits)

lemma coherent_new: "coherent (MemoryStorage [] [] (Some s))"
  by (simp add: coherent_def)


lemma coherent_getItem: "coherent c \<Longrightarrow> coherent (snd (getItem c k))"
proof (cases c)
  case (MemoryStorage st pk fb)
  assume c: "coherent c"
  then obtain p where fb: "fb = Some p" using MemoryStorage by (auto simp: coherent_def split: option.splits)
  show ?thesis
  proof (cases "map_of st k")
    case (Some v)
    then show ?thesis using c MemoryStorage fb by simp
  next
    case None
    obtain v p' where g: "getItem p k = (v, p')" by (cases "getItem p k")
    have v: "view p k = v" using g by (simp add: view_def)
    have p': "\<And>k'. view p' k' = view p k'" using view_getItem[of p k] g by simp
    show ?thesis using c MemoryStorage fb None g v p'
      by (auto simp: coherent_def AList.update_conv' split: if_splits)
  qed
qed

lemma coherent_setItem: "coherent c \<Longrightarrow> coherent (setItem c k v)"
proof (cases c)
  case (MemoryStorage st pk fb)
  assume c: "coherent c"
  then obtain p where fb: "fb = Some p" using MemoryStorage by (auto simp: coherent_def split: option.splits)
  show ?thesis using c MemoryStorage fb
    by (auto simp: coherent_def AList.update_conv' split: if_splits)
qed

lemma coherent_removeItem: "coherent c \<Longrightarrow> coherent (removeItem c k)"
proof (cases c)
  case (MemoryStorage st pk fb)
  assume c: "coherent c"
  then obtain p where fb: "fb = Some p" using MemoryStorage by (auto simp: coherent_def split: option.splits)
  show ?thesis using c MemoryStorage fb
    by (auto simp: coherent_def AList.delete_conv' split: if_splits)
qed

lemma view_flushKey:
  "view (flushKey st p k) k' = (if k' = k then (case map_of st k of Some v \<Rightarrow> v | None \<Rightarrow> None) else view p k')"
  by (simp add: flushKey_def split: option.splits)

lemma view_flush:
  "view (foldl (flushKey st) p pk) k =
     (if k \<in> set pk then (case map_of st k of Some v \<Rightarrow> v | None \<Rightarrow> None) else view p k)"
  by (induction pk arbitrary: p) (auto simp: view_flushKey)

lemma view_commit:
  assumes "coherent c"
  shows "\<exists>p'. fallback (commit c) = Some p' \<and> (\<forall>k. view p' k = view c k)"
proof (cases c)
  case (MemoryStorage st pk fb)
  then obtain p where fb: "fb = Some p" using assms by (auto simp: coherent_def split: option.splits)
  have "view (foldl (flushKey st) p pk) k = view c k" for k
    using assms MemoryStorage fb
    by (auto simp: view_flush view_overlay coherent_def split: option.splits)
  then show ?thesis using MemoryStorage fb by (simp add: commit_def)
qed

lemma view_transaction_ok:
  assumes "fn (MemoryStorage [] [] (Some s)) = (c, None)" "coherent c"
  shows "snd (transaction fn s) = None \<and> view (fst (transaction fn s)) k = view c k"
proof -
  obtain p' where "fallback (commit c) = Some p'" "\<forall>k. view p' k = view c k"
    using view_commit[OF assms(2)] by blast
  then show ?thesis using assms(1) by (simp add: transaction_def)
qed
text \<open>A callback that returns: after the commit the storage shows what the child showed.\<close>

lemma coherent_perform: "coherent c \<Longrightarrow> coherent (perform c op)"
  by (cases op) (simp_all add: coherent_getItem coherent_setItem coherent_removeItem)

lemma coherent_performAll: "coherent c \<Longrightarrow> coherent (foldl perform c ops)"
  by (induction ops arbitrary: c) (simp_all add: coherent_perform)

lemma committed_transaction_shows_child:
  "snd (transaction (thenReturn ops) s) = None
   \<and> view (fst (transaction (thenReturn ops) s)) k
      = view (foldl perform (MemoryStorage [] [] (Some s)) ops) k"
  using view_transaction_ok[of "thenReturn ops" s "foldl perform (MemoryStorage [] [] (Some s)) ops" k]
    coherent_performAll[OF coherent_new, of s ops]
  by (simp add: thenReturn_def)

section \<open>What deleteItem and Database.setItem change\<close>

lemma view_stripIndex:
  "view (stripIndex t i rf trx n) k =
     (if k = storageKey_index (key t) n
      then Some (TableIndex (stripIf i (lookup rf n) (asTableIndex (view trx k))))
      else view trx k)"
proof -
  obtain w trx' where g: "getItem trx (storageKey_index (key t) n) = (w, trx')"
    by (cases "getItem trx (storageKey_index (key t) n)")
  have w: "view trx (storageKey_index (key t) n) = w" using g by (simp add: view_def)
  have v: "\<And>k. view trx' k = view trx k" using view_getItem[of trx "storageKey_index (key t) n"] g by simp
  show ?thesis using g w v by (simp add: stripIndex_def stripIf_def Let_def)
qed


lemma view_foldl_stripIndex_other:
  "k \<notin> storageKey_index (key t) ` set ns \<Longrightarrow> view (foldl (stripIndex t i rf) trx ns) k = view trx k"
  by (induction ns arbitrary: trx) (auto simp: view_stripIndex)



lemma deleteItem_unfold:
  "deleteItem t i trx =
     removeItem (removeItem
        (foldl (stripIndex t i (snapshotOf t trx (toStr i)))
           (snd (getItem trx (storageKey_rowIndex (key t) (toStr i)))) (map fst (indexes t)))
        (storageKey_row (key t) (toStr i))) (storageKey_rowIndex (key t) (toStr i))"
  by (simp add: deleteItem_def Let_def snapshotOf_def view_def split: prod.splits)





lemma view_deleteItem_other:
  assumes "k \<noteq> storageKey_row (key t) (toStr i)" "k \<noteq> storageKey_rowIndex (key t) (toStr i)"
    "k \<notin> storageKey_index (key t) ` set (map fst (indexes t))"
  shows "view (deleteItem t i s) k = view s k"
  using assms by (simp add: deleteItem_unfold view_foldl_stripIndex_other del: set_map)













section \<open>The groups of an index\<close>

lemma values_stripIf [simp]: "map gvalue (stripIf i r idx) = map gvalue idx"
  by (simp add: stripIf_def stripId_def comp_def)


lemma appendIf_values:
  "set (map gvalue (appendIf i a idx)) \<subseteq> set (map gvalue idx) \<union> {a}"
  by (auto simp: appendIf_def appendId_def Let_def split: if_splits)







section \<open>The index records stay consistent\<close>

lemma recalculateIndexes_alt:
  "recalculateIndexes t item = map (\<lambda>(n, d). (n, indexValue d item)) (indexes t)"
  by (simp add: recalculateIndexes_def indexValue_def)

lemma keys_recalculateIndexes [simp]: "map fst (recalculateIndexes t item) = map fst (indexes t)"
  by (simp add: recalculateIndexes_alt comp_def case_prod_beta)













lemma nanFree_append: "nanFree t (xs @ ys) \<longleftrightarrow> nanFree t xs \<and> nanFree t ys"
  by (auto simp: nanFree_def)








text \<open>Strict equality on \<open>NaN\<close>: no group is found for it, none is stripped for it, and
  adding under it always makes a new group; and an id \<open>NaN\<close> is never taken out of a
  group.\<close>

lemma strict_matching_NaN:
  "findGroup (Lit NaN) index = None \<and> stripId i NaN index = index
   \<and> appendId i NaN index = index @ [Group NaN [i]]
   \<and> stripId NaN v index = index"
proof -
  have "find (\<lambda>g. strictEq (gvalue g) NaN) index = None"
    by (simp add: find_None_iff strictEq_def)
  moreover have "map (\<lambda>g. if \<not> strictEq (gvalue g) NaN then g else f g) index = index" for f
    by (induction index) (simp_all add: strictEq_def)
  moreover have "\<not> list_ex (\<lambda>g. strictEq (gvalue g) NaN) index"
    by (simp add: list_ex_iff strictEq_def)
  moreover have "stripId NaN v index = index"
  proof -
    have "filter (\<lambda>j. \<not> strictEq j NaN) js = js" for js
      by (induction js) (simp_all add: strictEq_def)
    then have "(\<lambda>g. if \<not> strictEq (gvalue g) v then g
                else Group (gvalue g) (filter (\<lambda>j. \<not> strictEq j NaN) (ids g))) = (\<lambda>g. g)"
      by (simp add: fun_eq_iff)
    then show ?thesis by (simp add: stripId_def)
  qed
  ultimately show ?thesis by (simp add: findGroup_def stripId_def appendId_def Let_def)
qed







end
